theory Spec2Isabelle
  imports Complex_Main "HOL-Library.AList" "HOL-Library.Char_ord" "HOL-Library.List_Lexorder"
begin

section \<open>Aggregation of per-tile output files (helpers/aggregate_parallel_files.py)\<close>

text \<open>
  A shallow embedding of \<^verbatim>\<open>get_dims\<close>, \<^verbatim>\<open>get_dim_offset\<close>,
  \<^verbatim>\<open>set_up_dataset\<close> and \<^verbatim>\<open>agg_file\<close>. Python exceptions are values of
  the type \<open>error\<close>; a function that can raise returns \<open>error + 'a\<close>, with
  \<open>Inl\<close> for the exception. Python integers are \<open>int\<close>. The calls into numpy
  and xarray are modelled by what the code relies on: allocation, basic slicing and slice
  assignment of arrays, and the constructors and dimension sizes of datasets.
\<close>

subsection \<open>Exceptions\<close>

datatype error =
    KeyError string
  | ValueError
  | IndexError
  | UnboundLocalError
  | OSError

text \<open>The name of the exception class, as Python reports it.\<close>

fun exc_name :: "error \<Rightarrow> string" where
  "exc_name (KeyError k) = ''KeyError''"
| "exc_name ValueError = ''ValueError''"
| "exc_name IndexError = ''IndexError''"
| "exc_name UnboundLocalError = ''UnboundLocalError''"
| "exc_name OSError = ''OSError''"

definition bind :: "error + 'a \<Rightarrow> ('a \<Rightarrow> error + 'b) \<Rightarrow> error + 'b" where
  "bind r f = (case r of Inl e \<Rightarrow> Inl e | Inr x \<Rightarrow> f x)"

text \<open>A list comprehension or a map whose body can raise: it stops at the first exception.\<close>

fun map_err :: "('a \<Rightarrow> error + 'b) \<Rightarrow> 'a list \<Rightarrow> error + 'b list" where
  "map_err f [] = Inr []"
| "map_err f (x # xs) =
     (case f x of
        Inl e \<Rightarrow> Inl e
      | Inr y \<Rightarrow> (case map_err f xs of Inl e \<Rightarrow> Inl e | Inr ys \<Rightarrow> Inr (y # ys)))"

text \<open>A \<^verbatim>\<open>for\<close> loop that updates a state and can raise in its body.\<close>

fun fold_err :: "('a \<Rightarrow> 's \<Rightarrow> error + 's) \<Rightarrow> 'a list \<Rightarrow> 's \<Rightarrow> error + 's" where
  "fold_err f [] s = Inr s"
| "fold_err f (x # xs) s =
     (case f x s of Inl e \<Rightarrow> Inl e | Inr s' \<Rightarrow> fold_err f xs s')"

subsection \<open>Attributes and the extent reader\<close>

text \<open>
  The value of a global attribute. \<open>AInt\<close> is an integer, \<open>AFloat\<close> a finite
  floating-point number (given by the rational it denotes), \<open>AText\<close> a text that is
  not a numeral. Python's \<^verbatim>\<open>int(x)\<close> returns an integer unchanged, truncates a
  finite float towards zero and raises ValueError on a text that is not a numeral.
\<close>

datatype attr_value = AInt int | AFloat rat | AText string

fun py_int :: "attr_value \<Rightarrow> error + int" where
  "py_int (AInt n) = Inr n"
| "py_int (AFloat q) = Inr (if q < 0 then - \<lfloor>- q\<rfloor> else \<lfloor>q\<rfloor>)"
| "py_int (AText s) = Inl ValueError"

text \<open>
  An n-dimensional array: its shape and the value of each cell, addressed by the list of
  its indices (one per axis). Only the cells whose indices lie within the shape are part
  of the array. The type of the values is left open: the code allocates arrays of zeros
  and copies cells, and computes nothing with them.
\<close>

record 'a ndarray =
  shape :: "nat list"
  cell :: "nat list \<Rightarrow> 'a"

text \<open>
  A variable of a dataset (\<^verbatim>\<open>d[v]\<close>): the tuple of its dimension names, its own
  attributes and its array (\<^verbatim>\<open>d[v].values\<close>, here \<open>vals\<close>).
\<close>

record 'a variable =
  dims :: "string list"
  var_attrs :: "(string \<times> attr_value) list"
  vals :: "'a ndarray"

text \<open>
  A dataset: the global attributes (\<^verbatim>\<open>d.attrs\<close>, a dict) and the variables by name,
  in the order in which \<^verbatim>\<open>for v in d.variables\<close> visits them.
\<close>

record 'a dataset =
  attrs :: "string \<rightharpoonup> attr_value"
  variables :: "(string \<times> 'a variable) list"

text \<open>\<^verbatim>\<open>int(dataset.attrs[key])\<close>: KeyError when the key is absent.\<close>

definition int_attr :: "'a dataset \<Rightarrow> string \<Rightarrow> error + int" where
  "int_attr dataset key =
     (case attrs dataset key of None \<Rightarrow> Inl (KeyError key) | Some a \<Rightarrow> py_int a)"

text \<open>The keys in the order of the two nested loops of \<^verbatim>\<open>get_dims\<close>.\<close>

definition extent_keys :: "string \<Rightarrow> string list" where
  "extent_keys section =
     [axis @ section @ position. axis \<leftarrow> [''i'', ''j'', ''k''], position \<leftarrow> [''s'', ''e'']]"

definition get_dims :: "'a dataset \<Rightarrow> string \<Rightarrow> error + int list" where
  "get_dims dataset section = map_err (int_attr dataset) (extent_keys section)"

subsection \<open>The staggering classifier\<close>

definition get_dim_offset :: "string list \<Rightarrow> int \<times> int" where
  "get_dim_offset ds =
     (let x_off = (if ''lon_u'' \<in> set ds then 1 else 0);
          y_off = (if ''lat_v'' \<in> set ds then 1 else 0)
      in (x_off, y_off))"

subsection \<open>Arrays: allocation, slicing and slice assignment\<close>

text \<open>\<^verbatim>\<open>np.zeros(shape)\<close>: ValueError on a negative dimension.\<close>

definition zeros :: "int list \<Rightarrow> error + ('a::zero) ndarray" where
  "zeros shp =
     (if \<exists>n \<in> set shp. n < 0 then Inl ValueError
      else Inr \<lparr>shape = map nat shp, cell = (\<lambda>idx. 0)\<rparr>)"

text \<open>
  A basic index with step one: \<open>Whole\<close> is \<^verbatim>\<open>:\<close> and \<open>Range a b\<close> is
  \<^verbatim>\<open>a:b\<close>. On an axis of length \<open>n\<close> a negative bound counts from the end and
  every bound is clipped to \<open>0..n\<close>; a slice whose end is not after its start is empty.
\<close>

datatype slice = Whole | Range int int

definition clip_index :: "nat \<Rightarrow> int \<Rightarrow> nat" where
  "clip_index n i = nat (if i < 0 then max 0 (i + int n) else min i (int n))"

text \<open>The first index and the length selected by a slice on an axis of length \<open>n\<close>.\<close>

fun slice_bounds :: "nat \<Rightarrow> slice \<Rightarrow> nat \<times> nat" where
  "slice_bounds n Whole = (0, n)"
| "slice_bounds n (Range a b) = (clip_index n a, clip_index n b - clip_index n a)"

text \<open>An index with fewer slices than axes selects the remaining axes whole.\<close>

definition view_bounds :: "nat list \<Rightarrow> slice list \<Rightarrow> (nat \<times> nat) list" where
  "view_bounds shp sls =
     map2 slice_bounds shp (sls @ replicate (length shp - length sls) Whole)"

text \<open>\<^verbatim>\<open>a[sls]\<close>: IndexError when there are more indices than axes.\<close>

definition getitem :: "'a ndarray \<Rightarrow> slice list \<Rightarrow> error + 'a ndarray" where
  "getitem a sls =
     (if length (shape a) < length sls then Inl IndexError
      else let bs = view_bounds (shape a) sls
           in Inr \<lparr>shape = map snd bs,
                   cell = (\<lambda>idx. cell a (map2 (+) (map fst bs) idx))\<rparr>)"

text \<open>
  Assignment broadcasts the value to the selected region: leading axes of length one are
  dropped from the value while it has more axes than the region, then the shapes are
  aligned at their last axis and every axis of the value must have the length of the
  region's axis or length one.
\<close>

fun strip_ones :: "nat \<Rightarrow> nat list \<Rightarrow> nat list" where
  "strip_ones r [] = []"
| "strip_ones r (n # ns) = (if r < length (n # ns) \<and> n = 1 then strip_ones r ns else n # ns)"

definition broadcastable :: "nat list \<Rightarrow> nat list \<Rightarrow> bool" where
  "broadcastable vs ts =
     (length vs \<le> length ts \<and> list_all (\<lambda>(v, t). v = t \<or> v = 1) (zip (rev vs) (rev ts)))"

text \<open>
  The cell of the value that is stored at the position \<open>ridx\<close> of the region (indices
  relative to the region's first cell).
\<close>

definition value_index :: "nat list \<Rightarrow> nat list \<Rightarrow> nat list \<Rightarrow> nat list" where
  "value_index vshape ts ridx =
     (let vs = strip_ones (length ts) vshape
      in replicate (length vshape - length vs) 0 @
         map2 (\<lambda>v i. if v = 1 then 0 else i) vs (drop (length ts - length vs) ridx))"

definition in_view :: "(nat \<times> nat) list \<Rightarrow> nat list \<Rightarrow> bool" where
  "in_view bs idx = list_all2 (\<lambda>(s, l) i. s \<le> i \<and> i < s + l) bs idx"

text \<open>\<^verbatim>\<open>a[sls] = v\<close>, returning the updated array.\<close>

definition setitem :: "'a ndarray \<Rightarrow> slice list \<Rightarrow> 'a ndarray \<Rightarrow> error + 'a ndarray" where
  "setitem a sls v =
     (if length (shape a) < length sls then Inl IndexError
      else let bs = view_bounds (shape a) sls; ts = map snd bs
           in if \<not> broadcastable (strip_ones (length ts) (shape v)) ts then Inl ValueError
              else Inr (a\<lparr>cell := (\<lambda>idx.
                     if in_view bs idx
                     then cell v (value_index (shape v) ts (map2 (-) idx (map fst bs)))
                     else cell a idx)\<rparr>))"

subsection \<open>Datasets: dimension sizes and constructors\<close>

text \<open>
  \<^verbatim>\<open>d.dims\<close>: the size of every dimension name, read off the variables. Within one
  dataset all variables agree on the size of a dimension.
\<close>

definition dim_pairs :: "(string \<times> 'a variable) list \<Rightarrow> (string \<times> nat) list" where
  "dim_pairs vs = concat (map (\<lambda>(n, v). zip (dims v) (shape (vals v))) vs)"

definition dim_size :: "'a dataset \<Rightarrow> string \<Rightarrow> error + int" where
  "dim_size d name =
     (case map_of (dim_pairs (variables d)) name of
        None \<Rightarrow> Inl (KeyError name)
      | Some n \<Rightarrow> Inr (int n))"

text \<open>
  \<^verbatim>\<open>xr.DataArray(data, dims=dims, name=name, attrs=attrs)\<close>: ValueError unless the
  array has one axis per dimension name.
\<close>

definition DataArray ::
  "'a ndarray \<Rightarrow> string list \<Rightarrow> (string \<times> attr_value) list \<Rightarrow> error + 'a variable" where
  "DataArray data ds atts =
     (if length (shape data) \<noteq> length ds then Inl ValueError
      else Inr \<lparr>dims = ds, var_attrs = atts, vals = data\<rparr>)"

text \<open>
  \<^verbatim>\<open>xr.Dataset(data_vars, attrs=attrs)\<close>: ValueError when two variables give
  different sizes to one dimension name. This is the check of the constructor that the
  shapes chosen by \<^verbatim>\<open>set_up_dataset\<close> can fail.
\<close>

definition consistent_dims :: "(string \<times> 'a variable) list \<Rightarrow> bool" where
  "consistent_dims vs =
     (let ps = dim_pairs vs in list_all (\<lambda>(k, n). map_of ps k = Some n) ps)"

definition Dataset ::
  "(string \<times> 'a variable) list \<Rightarrow> (string \<rightharpoonup> attr_value) \<Rightarrow> error + 'a dataset" where
  "Dataset data_vars atts =
     (if consistent_dims data_vars then Inr \<lparr>attrs = atts, variables = data_vars\<rparr>
      else Inl ValueError)"

subsection \<open>The global template\<close>

text \<open>
  Unpacking a list into six names: ValueError when it does not have six items.
\<close>

fun unpack6 :: "int list \<Rightarrow> error + (int \<times> int \<times> int \<times> int \<times> int \<times> int)" where
  "unpack6 [a, b, c, d, e, f] = Inr (a, b, c, d, e, f)"
| "unpack6 _ = Inl ValueError"

text \<open>
  The three \<^verbatim>\<open>if len(dims) == ...\<close> statements of the loop body. They exclude each
  other; when none applies, \<^verbatim>\<open>data\<close> keeps the array of the previous iteration, or is
  unbound (\<open>None\<close>) in the first one. \<^verbatim>\<open>nz\<close> is assigned before the loop and read only
  after its reassignment in the rank-4 branch.
\<close>

definition new_data ::
  "'a dataset \<Rightarrow> int \<Rightarrow> int \<Rightarrow> string list \<Rightarrow> ('a::zero) ndarray option
     \<Rightarrow> error + 'a ndarray option" where
  "new_data d nx ny ds data =
     (let (x_off, y_off) = get_dim_offset ds
      in if length ds = 2 then
           bind (zeros [ny + y_off, nx + x_off]) (\<lambda>a. Inr (Some a))
         else if length ds = 3 then
           bind (dim_size d (ds ! 0)) (\<lambda>n0.
           bind (zeros [n0, ny + y_off, nx + x_off]) (\<lambda>a. Inr (Some a)))
         else if length ds = 4 then
           bind (dim_size d (ds ! 0)) (\<lambda>nt.
           bind (dim_size d (ds ! 1)) (\<lambda>nz.
           bind (zeros [nt, nz, ny + y_off, nx + x_off]) (\<lambda>a. Inr (Some a))))
         else Inr data)"

text \<open>
  One iteration of \<^verbatim>\<open>for v in d.variables\<close>, on the pair of \<^verbatim>\<open>data\<close> and
  \<^verbatim>\<open>data_vars\<close>. Reading an unbound \<^verbatim>\<open>data\<close> raises UnboundLocalError.
\<close>

definition set_up_step ::
  "'a dataset \<Rightarrow> int \<Rightarrow> int \<Rightarrow> string \<times> 'a variable
     \<Rightarrow> ('a::zero) ndarray option \<times> (string \<times> 'a variable) list
     \<Rightarrow> error + ('a ndarray option \<times> (string \<times> 'a variable) list)" where
  "set_up_step d nx ny nv st =
     (case (nv, st) of ((v, var), (data, data_vars)) \<Rightarrow>
        bind (new_data d nx ny (dims var) data) (\<lambda>data'.
          case data' of
            None \<Rightarrow> Inl UnboundLocalError
          | Some a \<Rightarrow>
              bind (DataArray a (dims var) (var_attrs var)) (\<lambda>da.
                Inr (Some a, AList.update v da data_vars))))"

definition set_up_dataset :: "('a::zero) dataset \<Rightarrow> error + 'a dataset" where
  "set_up_dataset d =
     bind (get_dims d ''d'') (\<lambda>ext.
     bind (unpack6 ext) (\<lambda>(ids, ide, jds, jde, kds, kde).
       let nx = ide - ids + 1;
           ny = jde - jds + 1
       in bind (fold_err (set_up_step d nx ny) (variables d) (None, [])) (\<lambda>(data, data_vars).
            Dataset data_vars (attrs d))))"

subsection \<open>The index mapper and the copy of one tile\<close>

text \<open>
  Lines 110 to 116 for one axis: the slice of the tile's interior in its own array (which
  starts at the memory start) and in the global array (which starts at the domain start).
\<close>

definition local_slice :: "int \<Rightarrow> int \<Rightarrow> int \<Rightarrow> int \<times> int" where
  "local_slice ms ts te = (ts - ms, te - ms + 1)"

definition global_slice :: "int \<Rightarrow> int \<Rightarrow> int \<Rightarrow> int \<times> int" where
  "global_slice ds ts te = (ts - ds, te - ds + 1)"

type_synonym ranges = "(int \<times> int) \<times> (int \<times> int) \<times> (int \<times> int)"

text \<open>
  The rank dispatch of the copy: the slices of the destination and of the source, or
  \<open>None\<close> when no branch applies and the variable is skipped.
\<close>

definition var_slices :: "string list \<Rightarrow> ranges \<Rightarrow> ranges \<Rightarrow> (slice list \<times> slice list) option" where
  "var_slices ds loc glob =
     (case (get_dim_offset ds, loc, glob) of
        ((x_off, y_off), ((xts, xte), (yts, yte), (zts, zte)), ((xs, xe), (ys, ye), (zs, ze))) \<Rightarrow>
          if length ds = 2 then
            Some ([Range ys ye, Range xs xe], [Range yts yte, Range xts xte])
          else if length ds = 3 then
            (if ds ! 0 = ''time'' then
               Some ([Whole, Range ys (ye + y_off), Range xs (xe + x_off)],
                     [Whole, Range yts (yte + y_off), Range xts (xte + x_off)])
             else
               Some ([Range zs ze, Range ys (ye + y_off), Range xs (xe + x_off)],
                     [Range zts zte, Range yts (yte + y_off), Range xts (xte + x_off)]))
          else if length ds = 4 then
            Some ([Whole, Range zs ze, Range ys (ye + y_off), Range xs (xe + x_off)],
                  [Whole, Range zts zte, Range yts (yte + y_off), Range xts (xte + x_off)])
          else None)"

text \<open>
  One iteration of \<^verbatim>\<open>for v in d.variables\<close> in \<^verbatim>\<open>agg_file\<close>. The right-hand side
  is evaluated first, then \<^verbatim>\<open>data_set[v]\<close> (KeyError when the template has no such
  variable), then the assignment, which changes the array of \<^verbatim>\<open>data_set[v]\<close> in place.
\<close>

definition copy_variable ::
  "ranges \<Rightarrow> ranges \<Rightarrow> string \<times> 'a variable \<Rightarrow> 'a dataset \<Rightarrow> error + 'a dataset" where
  "copy_variable loc glob nv data_set =
     (case nv of (v, var) \<Rightarrow>
        (case var_slices (dims var) loc glob of
           None \<Rightarrow> Inr data_set
         | Some (gsl, tsl) \<Rightarrow>
             bind (getitem (vals var) tsl) (\<lambda>src.
               case map_of (variables data_set) v of
                 None \<Rightarrow> Inl (KeyError v)
               | Some gv \<Rightarrow>
                   bind (setitem (vals gv) gsl src) (\<lambda>a.
                     Inr (data_set\<lparr>variables :=
                            AList.update v (gv\<lparr>vals := a\<rparr>) (variables data_set)\<rparr>)))))"

text \<open>The body of \<^verbatim>\<open>for d in all_data\<close>.\<close>

definition agg_tile ::
  "int \<times> int \<times> int \<times> int \<times> int \<times> int \<Rightarrow> 'a dataset \<Rightarrow> 'a dataset \<Rightarrow> error + 'a dataset" where
  "agg_tile dext d data_set =
     (case dext of (ids, ide, jds, jde, kds, kde) \<Rightarrow>
        bind (get_dims d ''m'') (\<lambda>m.
        bind (unpack6 m) (\<lambda>(ims, ime, jms, jme, kms, kme).
        bind (get_dims d ''t'') (\<lambda>t.
        bind (unpack6 t) (\<lambda>(its, ite, jts, jte, kts, kte).
          let loc = (local_slice ims its ite, local_slice jms jts jte, local_slice kms kts kte);
              glob = (global_slice ids its ite, global_slice jds jts jte, global_slice kds kts kte)
          in fold_err (copy_variable loc glob) (variables d) data_set)))))"

text \<open>
  Lines 103 to 131: the template from the first dataset, then the copy of every tile.
  \<^verbatim>\<open>all_data[0]\<close> raises IndexError on an empty list.
\<close>

definition aggregate :: "('a::zero) dataset list \<Rightarrow> error + 'a dataset" where
  "aggregate all_data =
     (case all_data of
        [] \<Rightarrow> Inl IndexError
      | d0 # rest \<Rightarrow>
          bind (set_up_dataset d0) (\<lambda>data_set.
          bind (get_dims d0 ''d'') (\<lambda>ext.
          bind (unpack6 ext) (\<lambda>dext.
            fold_err (agg_tile dext) all_data data_set))))"

subsection \<open>One timestep group\<close>

text \<open>
  \<^verbatim>\<open>s.replace(old, new)\<close> for a non-empty \<open>old\<close>: every occurrence, found from left
  to right without overlap.
\<close>

function replace :: "string \<Rightarrow> string \<Rightarrow> string \<Rightarrow> string" where
  "replace [] old new = []"
| "replace (c # cs) old new =
     (if old \<noteq> [] \<and> take (length old) (c # cs) = old
      then new @ replace (drop (length old) (c # cs)) old new
      else c # replace cs old new)"
  by pat_completeness auto
termination
  by (relation "measure (\<lambda>(s, old, new). length s)") (auto simp: neq_Nil_conv)

text \<open>
  \<^verbatim>\<open>agg_file\<close>. The file system and the reader are parameters: \<open>glob\<close> answers
  \<^verbatim>\<open>glob.glob(pattern)\<close> with the names of the existing files that match, and
  \<open>load_file\<close> is the outcome of \<^verbatim>\<open>xr.open_dataset(file_name).load()\<close>, an
  exception when the file cannot be opened. The loads of the pool are gathered in the
  order of the list; when one of them raises, \<^verbatim>\<open>results.get()\<close> raises (the model
  reports the first failure in the order of the list). The result is the file written by
  \<^verbatim>\<open>to_netcdf\<close>, the last statement and the only write: its name and its content.
  When \<open>agg_file\<close> raises, nothing has been written.
\<close>

definition agg_file ::
  "(string \<Rightarrow> string list) \<Rightarrow> (string \<Rightarrow> error + ('a::zero) dataset) \<Rightarrow> string
     \<Rightarrow> error + (string \<times> 'a dataset)" where
  "agg_file glob load_file first_file =
     (let date_search = replace first_file ''_001_'' ''*'';
          this_date_files = sort (glob date_search)
      in bind (map_err load_file this_date_files) (\<lambda>all_data.
         bind (aggregate all_data) (\<lambda>data_set.
           Inr (replace first_file ''_001_'' ''_'', data_set))))"

subsection \<open>Notions used in the statements\<close>

text \<open>
  \<open>built d nx ny var g\<close>: \<open>g\<close> is the variable that one iteration of the loop of
  \<^verbatim>\<open>set_up_dataset\<close> stores for the variable \<open>var\<close> of \<open>d\<close>: the dimension names
  and attributes of \<open>var\<close> around a freshly allocated array.
\<close>

definition built :: "('a::zero) dataset \<Rightarrow> int \<Rightarrow> int \<Rightarrow> 'a variable \<Rightarrow> 'a variable \<Rightarrow> bool" where
  "built d nx ny var g \<longleftrightarrow>
     dims g = dims var \<and> var_attrs g = var_attrs var \<and>
     (length (dims var) = 2 \<or> length (dims var) = 3 \<or> length (dims var) = 4) \<and>
     new_data d nx ny (dims var) None = Inr (Some (vals g))"

text \<open>The names, dimension names and shapes of the variables of a dataset.\<close>

definition layout :: "'a dataset \<Rightarrow> (string \<times> string list \<times> nat list) list" where
  "layout d = map (\<lambda>(n, v). (n, dims v, shape (vals v))) (variables d)"

text \<open>
  Two datasets with the same variables and the same global attributes, but for the six
  attributes of the domain extent.
\<close>

definition same_but_domain :: "'a dataset \<Rightarrow> 'a dataset \<Rightarrow> bool" where
  "same_but_domain d d' \<longleftrightarrow>
     variables d' = variables d \<and>
     (\<forall>k. k \<notin> set (extent_keys ''d'') \<longrightarrow> attrs d' k = attrs d k)"










subsection \<open>Example data\<close>

text \<open>
  Global attributes holding a domain, a memory and a tile extent, each given as the six
  integers (start and end on i, j and k).
\<close>

definition ex_attrs :: "int list \<Rightarrow> int list \<Rightarrow> int list \<Rightarrow> string \<rightharpoonup> attr_value" where
  "ex_attrs de me te =
     map_of (zip (extent_keys ''d'' @ extent_keys ''m'' @ extent_keys ''t'')
                 (map AInt (de @ me @ te)))"



text \<open>An array with one value in every cell, and a variable without attributes of its own.\<close>

definition full :: "nat list \<Rightarrow> 'a \<Rightarrow> 'a ndarray" where
  "full shp c = \<lparr>shape = shp, cell = (\<lambda>idx. c)\<rparr>"

definition ex_var :: "string list \<Rightarrow> 'a ndarray \<Rightarrow> 'a variable" where
  "ex_var ds a = \<lparr>dims = ds, var_attrs = [], vals = a\<rparr>"

text \<open>
  A tile over the domain i = 0..3, j = 0..1, k = 0..9 that holds three levels: a rank-2
  field, a rank-4 field staggered in x and a rank-3 field staggered in y.
\<close>

definition d_tmpl :: "int dataset" where
  "d_tmpl =
     \<lparr>attrs = ex_attrs [0, 3, 0, 1, 0, 9] [0, 3, 0, 1, 0, 2] [0, 3, 0, 1, 0, 2],
      variables =
        [(''h'', ex_var [''lat'', ''lon''] (full [2, 4] 7)),
         (''u'', ex_var [''time'', ''level'', ''lat'', ''lon_u''] (full [1, 3, 2, 5] 8)),
         (''v'', ex_var [''level'', ''lat_v'', ''lon''] (full [3, 3, 4] 9))]\<rparr>"

text \<open>The same tile with only a rank-1 variable, and with one after a rank-2 variable.\<close>

definition d_rank1 :: "int dataset" where
  "d_rank1 = d_tmpl\<lparr>variables := [(''time'', ex_var [''time''] (full [1] 0))]\<rparr>"

definition d_rank1_later :: "int dataset" where
  "d_rank1_later =
     d_tmpl\<lparr>variables := [(''h'', ex_var [''lat'', ''lon''] (full [2, 4] 7)),
                           (''time'', ex_var [''time''] (full [1] 0))]\<rparr>"

text \<open>
  A single tile that is the whole domain i = 0..1, j = 0..0, k = 0..0, without halo, with
  a rank-2 field staggered in x (three columns, every cell 7).
\<close>

definition d_stag2 :: "int dataset" where
  "d_stag2 =
     \<lparr>attrs = ex_attrs [0, 1, 0, 0, 0, 0] [0, 1, 0, 0, 0, 0] [0, 1, 0, 0, 0, 0],
      variables = [(''u2'', ex_var [''lat'', ''lon_u''] (full [1, 3] 7))]\<rparr>"

text \<open>The cells of a variable of a dataset at the given indices.\<close>

definition read_cells :: "'a dataset \<Rightarrow> string \<Rightarrow> nat list list \<Rightarrow> 'a list option" where
  "read_cells g v idxs = map_option (\<lambda>var. map (cell (vals var)) idxs) (map_of (variables g) v)"

text \<open>An array whose cells hold \<open>c\<close> plus their index on the last axis.\<close>

definition ramp :: "nat list \<Rightarrow> int \<Rightarrow> int ndarray" where
  "ramp shp c = \<lparr>shape = shp, cell = (\<lambda>idx. c + int (last idx))\<rparr>"

text \<open>
  A group of two tiles over the domain i = 0..3, j = 0..0, k = 0..0. The first tile owns
  i = 0..1 and holds i = 0..2, the second owns i = 2..3 and holds i = 1..3 (a halo of one
  column each). Both have a rank-2 field and a rank-3 field with a time axis that is
  staggered in x.
\<close>

definition tile_a :: "int dataset" where
  "tile_a =
     \<lparr>attrs = ex_attrs [0, 3, 0, 0, 0, 0] [0, 2, 0, 0, 0, 0] [0, 1, 0, 0, 0, 0],
      variables =
        [(''h'', ex_var [''lat'', ''lon''] (ramp [1, 3] 10)),
         (''u'', ex_var [''time'', ''lat'', ''lon_u''] (ramp [1, 1, 4] 30))]\<rparr>"

definition tile_b :: "int dataset" where
  "tile_b =
     \<lparr>attrs = ex_attrs [0, 3, 0, 0, 0, 0] [1, 3, 0, 0, 0, 0] [2, 3, 0, 0, 0, 0],
      variables =
        [(''h'', ex_var [''lat'', ''lon''] (ramp [1, 3] 20)),
         (''u'', ex_var [''time'', ''lat'', ''lon_u''] (ramp [1, 1, 4] 40))]\<rparr>"

text \<open>The second tile with another domain extent in its attributes.\<close>

definition tile_b_other :: "int dataset" where
  "tile_b_other =
     tile_b\<lparr>attrs := ex_attrs [5, 9, 7, 8, 1, 1] [1, 3, 0, 0, 0, 0] [2, 3, 0, 0, 0, 0]\<rparr>"

text \<open>
  A directory with the two files of the group, one with the first file only, and the
  readers: the second file holds \<open>tile_b\<close>, \<open>tile_b_other\<close>, or cannot be opened.
\<close>

definition glob_ex :: "string \<Rightarrow> string list" where
  "glob_ex pattern = (if pattern = ''out*t.nc'' then [''out_002_t.nc'', ''out_001_t.nc''] else [])"

definition glob_first_only :: "string \<Rightarrow> string list" where
  "glob_first_only pattern = (if pattern = ''out*t.nc'' then [''out_001_t.nc''] else [])"

definition load_ex :: "string \<Rightarrow> error + int dataset" where
  "load_ex f =
     (if f = ''out_001_t.nc'' then Inr tile_a
      else if f = ''out_002_t.nc'' then Inr tile_b
      else Inl OSError)"

definition load_other :: "string \<Rightarrow> error + int dataset" where
  "load_other f =
     (if f = ''out_001_t.nc'' then Inr tile_a
      else if f = ''out_002_t.nc'' then Inr tile_b_other
      else Inl OSError)"

definition load_broken :: "string \<Rightarrow> error + int dataset" where
  "load_broken f = (if f = ''out_001_t.nc'' then Inr tile_a else Inl OSError)"

section \<open>Properties\<close>

subsection \<open>Loops that can raise\<close>

lemma list_all2_map_err:
  "list_all2 (\<lambda>x y. f x = Inr y) xs ys \<longleftrightarrow> map_err f xs = Inr ys"
  by (induction xs arbitrary: ys) (auto split: sum.splits simp: list_all2_Cons1)

lemma map_err_Inr:
  "map_err f xs = Inr ys \<longleftrightarrow> list_all2 (\<lambda>x y. f x = Inr y) xs ys"
  by (simp add: list_all2_map_err)

lemma map_err_Inl: "map_err f xs = Inl e \<Longrightarrow> \<exists>x \<in> set xs. f x = Inl e"
  by (induction xs) (auto split: sum.splits)

lemma map_err_isl: "isl (map_err f xs) \<longleftrightarrow> (\<exists>x \<in> set xs. isl (f x))"
  by (induction xs) (auto split: sum.splits)

lemma extent_keys_eq:
  "extent_keys s = [''i'' @ s @ ''s'', ''i'' @ s @ ''e'', ''j'' @ s @ ''s'', ''j'' @ s @ ''e'',
                    ''k'' @ s @ ''s'', ''k'' @ s @ ''e'']"
  by (simp add: extent_keys_def)

subsection \<open>The index mapper\<close>

text \<open>
  Claim C2. On every axis, for a tile extent \<open>ts..te\<close> inside the memory extent
  \<open>ms..me\<close> and inside the domain extent \<open>ds..de\<close>, the local slice and the global
  slice computed by the index mapper have the same length, \<open>te - ts + 1\<close>, as
  differences of their bounds; and, when the tile extent is not empty, as the numbers of
  cells they select in an array of the memory size and in an array of the domain size.
\<close>

theorem slice_lengths_equal:
  assumes "ms \<le> ts" and "te \<le> me" and "ds \<le> ts" and "te \<le> de"
  shows "snd (local_slice ms ts te) - fst (local_slice ms ts te) = te - ts + 1
       \<and> snd (global_slice ds ts te) - fst (global_slice ds ts te) = te - ts + 1
       \<and> (ts \<le> te \<longrightarrow>
            snd (slice_bounds (nat (me - ms + 1))
                  (Range (fst (local_slice ms ts te)) (snd (local_slice ms ts te))))
              = snd (slice_bounds (nat (de - ds + 1))
                  (Range (fst (global_slice ds ts te)) (snd (global_slice ds ts te))))
            \<and> int (snd (slice_bounds (nat (me - ms + 1))
                  (Range (fst (local_slice ms ts te)) (snd (local_slice ms ts te)))))
              = te - ts + 1)"
  using assms by (auto simp: local_slice_def global_slice_def clip_index_def)

theorem slice_lengths_equal_witness:
  "snd (local_slice 0 1 5) - fst (local_slice 0 1 5) = 5 - 1 + 1
       \<and> snd (global_slice (-2) 1 5) - fst (global_slice (-2) 1 5) = 5 - 1 + 1
       \<and> snd (slice_bounds (nat (6 - 0 + 1))
               (Range (fst (local_slice 0 1 5)) (snd (local_slice 0 1 5))))
         = snd (slice_bounds (nat (9 - (-2) + 1))
               (Range (fst (global_slice (-2) 1 5)) (snd (global_slice (-2) 1 5))))
       \<and> int (snd (slice_bounds (nat (6 - 0 + 1))
               (Range (fst (local_slice 0 1 5)) (snd (local_slice 0 1 5)))))
         = 5 - 1 + 1"
  using slice_lengths_equal [of 0 1 5 6 "-2" 9] by simp

subsection \<open>The extent reader\<close>








subsection \<open>The global template\<close>

lemma bind_Inl [simp]: "bind (Inl e) f = Inl e"
  and bind_Inr [simp]: "bind (Inr x) f = f x"
  by (simp_all add: bind_def)

lemma bind_eq_Inr: "bind r f = Inr y \<longleftrightarrow> (\<exists>x. r = Inr x \<and> f x = Inr y)"
  by (cases r) simp_all

lemma bind_eq_Inl: "bind r f = Inl e \<longleftrightarrow> (r = Inl e \<or> (\<exists>x. r = Inr x \<and> f x = Inl e))"
  by (cases r) simp_all

lemma zeros_eq_Inr:
  "zeros shp = Inr a \<longleftrightarrow>
     ((\<forall>n \<in> set shp. 0 \<le> n) \<and> shape a = map nat shp \<and> cell a = (\<lambda>idx. 0))"
  by (cases a) (force simp: zeros_def not_less)

lemma get_dim_offset_cases:
  "get_dim_offset ds = (if ''lon_u'' \<in> set ds then 1 else 0, if ''lat_v'' \<in> set ds then 1 else 0)"
  by (simp add: get_dim_offset_def)

lemma new_data_stale:
  "length ds \<noteq> 2 \<Longrightarrow> length ds \<noteq> 3 \<Longrightarrow> length ds \<noteq> 4 \<Longrightarrow> new_data d nx ny ds data = Inr data"
  by (simp add: new_data_def split: prod.splits)

lemma new_data_fresh:
  "length ds = 2 \<or> length ds = 3 \<or> length ds = 4 \<Longrightarrow>
   new_data d nx ny ds data = new_data d nx ny ds None"
  by (auto simp: new_data_def split: prod.splits)

lemma new_data_None:
  "new_data d nx ny ds None = Inr r \<Longrightarrow> length ds = 2 \<or> length ds = 3 \<or> length ds = 4 \<Longrightarrow>
   \<exists>a. r = Some a \<and> length (shape a) = length ds \<and> cell a = (\<lambda>idx. 0)"
  by (auto simp: new_data_def bind_eq_Inr zeros_eq_Inr split: prod.splits)

lemma set_up_step_Inr:
  assumes "set_up_step d nx ny (v, var) (data, dv) = Inr (data', dv')"
    and ok: "\<And>a. data = Some a \<Longrightarrow> length (shape a) \<in> {2, 3, 4}"
  shows "\<exists>g. built d nx ny var g \<and> data' = Some (vals g) \<and> dv' = AList.update v g dv"
proof (cases "length (dims var) = 2 \<or> length (dims var) = 3 \<or> length (dims var) = 4")
  case True
  from assms(1) obtain r where r: "new_data d nx ny (dims var) data = Inr r"
    by (auto simp: set_up_step_def bind_eq_Inr)
  have r0: "new_data d nx ny (dims var) None = Inr r"
    using new_data_fresh [OF True, of d nx ny data] r by (simp only:)
  from new_data_None [OF r0 True] obtain a where a: "r = Some a" "length (shape a) = length (dims var)"
    by blast
  from assms(1) r a have "data' = Some a"
    "dv' = AList.update v \<lparr>dims = dims var, var_attrs = var_attrs var, vals = a\<rparr> dv"
    by (auto simp: set_up_step_def DataArray_def)
  with True r0 a show ?thesis
    by (intro exI [of _ "\<lparr>dims = dims var, var_attrs = var_attrs var, vals = a\<rparr>"])
       (simp add: built_def)
next
  case False
  then have st: "new_data d nx ny (dims var) data = Inr data"
    by (simp add: new_data_stale)
  show ?thesis
  proof (cases data)
    case None
    with assms(1) st show ?thesis by (simp add: set_up_step_def)
  next
    case (Some a)
    with ok have "length (shape a) \<in> {2, 3, 4}" by simp
    with False have "length (shape a) \<noteq> length (dims var)" by auto
    with assms(1) st Some show ?thesis by (simp add: set_up_step_def DataArray_def)
  qed
qed

lemma built_rank: "built d nx ny var g \<Longrightarrow> length (shape (vals g)) \<in> {2, 3, 4} \<and> length (shape (vals g)) = length (dims g)"
  unfolding built_def using new_data_None by fastforce

lemma set_up_fold:
  assumes "fold_err (set_up_step d nx ny) vs (data, dv) = Inr (data', dv')"
    and "\<And>a. data = Some a \<Longrightarrow> length (shape a) \<in> {2, 3, 4}"
  shows "\<exists>gs. list_all2 (\<lambda>nv g. built d nx ny (snd nv) g) vs gs \<and>
              dv' = fold (\<lambda>(k, g). AList.update k g) (zip (map fst vs) gs) dv"
  using assms
proof (induction vs arbitrary: data dv)
  case Nil
  then show ?case by simp
next
  case (Cons nv vs)
  obtain v var where nv: "nv = (v, var)" by (cases nv)
  from Cons.prems(1) obtain data1 dv1 where
    s: "set_up_step d nx ny (v, var) (data, dv) = Inr (data1, dv1)"
    and f: "fold_err (set_up_step d nx ny) vs (data1, dv1) = Inr (data', dv')"
    by (auto simp: nv split: sum.splits)
  from set_up_step_Inr [OF s Cons.prems(2)] obtain g where
    g: "built d nx ny var g" "data1 = Some (vals g)" "dv1 = AList.update v g dv"
    by blast
  have "\<And>a. data1 = Some a \<Longrightarrow> length (shape a) \<in> {2, 3, 4}"
    using g(2) built_rank [OF g(1)] by auto
  from Cons.IH [OF f this] obtain gs where
    gs: "list_all2 (\<lambda>nv g. built d nx ny (snd nv) g) vs gs"
        "dv' = fold (\<lambda>(k, g). AList.update k g) (zip (map fst vs) gs) dv1"
    by blast
  show ?case
    by (rule exI [of _ "g # gs"]) (simp add: nv g gs)
qed


lemma unpack6_Inr: "unpack6 xs = Inr (a, b, c, d, e, f) \<longleftrightarrow> xs = [a, b, c, d, e, f]"
  by (cases xs rule: unpack6.cases) auto

lemma unpack6_Inr_ex: "unpack6 xs = Inr t \<Longrightarrow> \<exists>a b c d e f. xs = [a, b, c, d, e, f] \<and> t = (a, b, c, d, e, f)"
  by (cases xs rule: unpack6.cases) auto

lemma get_dims_length: "get_dims d s = Inr r \<Longrightarrow> length r = 6"
  unfolding get_dims_def map_err_Inr extent_keys_eq by (auto dest: list_all2_lengthD)

lemma get_dims_unpack6:
  "get_dims d s = Inr r \<Longrightarrow> \<exists>a b c d e f. r = [a, b, c, d, e, f] \<and> unpack6 r = Inr (a, b, c, d, e, f)"
  unfolding get_dims_def map_err_Inr extent_keys_eq by (auto simp: list_all2_Cons1)

lemma set_up_dataset_Inr:
  assumes "set_up_dataset d = Inr g"
  shows "\<exists>ids ide jds jde kds kde gs.
           get_dims d ''d'' = Inr [ids, ide, jds, jde, kds, kde] \<and>
           list_all2 (\<lambda>nv v. built d (ide - ids + 1) (jde - jds + 1) (snd nv) v) (variables d) gs \<and>
           variables g = fold (\<lambda>(k, v). AList.update k v) (zip (map fst (variables d)) gs) [] \<and>
           attrs g = attrs d \<and> consistent_dims (variables g)"
proof -
  from assms obtain ext t where ext: "get_dims d ''d'' = Inr ext" "unpack6 ext = Inr t"
    by (auto simp: set_up_dataset_def bind_eq_Inr)
  from unpack6_Inr_ex [OF ext(2)] obtain ids ide jds jde kds kde where
    e: "ext = [ids, ide, jds, jde, kds, kde]" "t = (ids, ide, jds, jde, kds, kde)"
    by blast
  from assms ext e obtain data dv where
    f: "fold_err (set_up_step d (ide - ids + 1) (jde - jds + 1)) (variables d) (None, []) = Inr (data, dv)"
    and g: "Dataset dv (attrs d) = Inr g"
    by (auto simp: set_up_dataset_def bind_eq_Inr Let_def)
  from set_up_fold [OF f] obtain gs where
    gs: "list_all2 (\<lambda>nv v. built d (ide - ids + 1) (jde - jds + 1) (snd nv) v) (variables d) gs"
        "dv = fold (\<lambda>(k, v). AList.update k v) (zip (map fst (variables d)) gs) []"
    by auto
  from g have "variables g = dv" "attrs g = attrs d" "consistent_dims dv"
    by (auto simp: Dataset_def split: if_splits)
  with ext e gs show ?thesis by auto
qed

lemma set_update_subset: "set (AList.update k v al) \<subseteq> insert (k, v) (set al)"
  by (induction al) auto

lemma set_fold_update:
  "set (fold (\<lambda>(k, v). AList.update k v) kvs al) \<subseteq> set kvs \<union> set al"
proof (induction kvs arbitrary: al)
  case Nil
  then show ?case by simp
next
  case (Cons kv kvs)
  obtain k v where kv: "kv = (k, v)" by (cases kv)
  have "set (fold (\<lambda>(k, v). AList.update k v) kvs (AList.update k v al))
          \<subseteq> set kvs \<union> set (AList.update k v al)"
    by (rule Cons.IH)
  with set_update_subset [of k v al] show ?case
    by (auto simp: kv)
qed

lemma template_member:
  assumes "set_up_dataset d = Inr g" and "get_dims d ''d'' = Inr [ids, ide, jds, jde, kds, kde]"
    and "(n, v) \<in> set (variables g)"
  shows "\<exists>var. (n, var) \<in> set (variables d) \<and> built d (ide - ids + 1) (jde - jds + 1) var v"
proof -
  from set_up_dataset_Inr [OF assms(1)] assms(2) obtain gs where
    gs: "list_all2 (\<lambda>nv v. built d (ide - ids + 1) (jde - jds + 1) (snd nv) v) (variables d) gs"
        "variables g = fold (\<lambda>(k, v). AList.update k v) (zip (map fst (variables d)) gs) []"
    by auto
  from assms(3) gs(2) set_fold_update [of "zip (map fst (variables d)) gs" "[]"]
  have "(n, v) \<in> set (zip (map fst (variables d)) gs)" by auto
  then obtain i where i: "i < length (variables d)" "i < length gs"
      "fst (variables d ! i) = n" "gs ! i = v"
    by (auto simp: set_zip)
  from gs(1) i have "built d (ide - ids + 1) (jde - jds + 1) (snd (variables d ! i)) v"
    by (auto simp: list_all2_conv_all_nth)
  moreover from i have "(n, snd (variables d ! i)) \<in> set (variables d)"
    by (metis nth_mem prod.collapse)
  ultimately show ?thesis by blast
qed

lemma dim_size_Inr: "dim_size d k = Inr n \<Longrightarrow> \<exists>m. n = int m \<and> map_of (dim_pairs (variables d)) k = Some m"
  by (auto simp: dim_size_def split: option.splits)

lemma dim_size_nat: "dim_size d k = Inr n \<Longrightarrow> int (nat n) = n"
  by (auto dest: dim_size_Inr)

lemma built_shape:
  assumes "built d nx ny var g"
  shows "0 \<le> ny + snd (get_dim_offset (dims var))"
    and "0 \<le> nx + fst (get_dim_offset (dims var))"
    and "cell (vals g) = (\<lambda>idx. 0)"
    and "length (dims var) = 2 \<Longrightarrow>
           shape (vals g) = [nat (ny + snd (get_dim_offset (dims var))),
                             nat (nx + fst (get_dim_offset (dims var)))]"
    and "length (dims var) = 3 \<Longrightarrow>
           \<exists>n0. dim_size d (dims var ! 0) = Inr (int n0) \<and>
             shape (vals g) = [n0, nat (ny + snd (get_dim_offset (dims var))),
                             nat (nx + fst (get_dim_offset (dims var)))]"
    and "length (dims var) = 4 \<Longrightarrow>
           \<exists>nt nz. dim_size d (dims var ! 0) = Inr (int nt) \<and> dim_size d (dims var ! 1) = Inr (int nz) \<and>
             shape (vals g) = [nt, nz, nat (ny + snd (get_dim_offset (dims var))),
                             nat (nx + fst (get_dim_offset (dims var)))]"
proof -
  obtain x_off y_off where o: "get_dim_offset (dims var) = (x_off, y_off)"
    by (cases "get_dim_offset (dims var)")
  from assms have nd: "new_data d nx ny (dims var) None = Inr (Some (vals g))"
    and r: "length (dims var) = 2 \<or> length (dims var) = 3 \<or> length (dims var) = 4"
    by (simp_all add: built_def)
  from nd r o show "0 \<le> ny + snd (get_dim_offset (dims var))"
    "0 \<le> nx + fst (get_dim_offset (dims var))"
    by (auto simp: new_data_def bind_eq_Inr zeros_eq_Inr)
  from new_data_None [OF nd r] show "cell (vals g) = (\<lambda>idx. 0)"
    by auto
  show "shape (vals g) = [nat (ny + snd (get_dim_offset (dims var))),
                             nat (nx + fst (get_dim_offset (dims var)))]"
    if "length (dims var) = 2"
    using nd o that by (auto simp: new_data_def bind_eq_Inr zeros_eq_Inr)
  show "\<exists>n0. dim_size d (dims var ! 0) = Inr (int n0) \<and>
             shape (vals g) = [n0, nat (ny + snd (get_dim_offset (dims var))),
                             nat (nx + fst (get_dim_offset (dims var)))]"
    if "length (dims var) = 3"
  proof -
    from nd o that obtain n0 where n0: "dim_size d (dims var ! 0) = Inr n0"
      "shape (vals g) = [nat n0, nat (ny + y_off), nat (nx + x_off)]"
      by (auto simp: new_data_def bind_eq_Inr zeros_eq_Inr)
    with dim_size_nat [OF n0(1)] o show ?thesis
      by (intro exI [of _ "nat n0"]) simp
  qed
  show "\<exists>nt nz. dim_size d (dims var ! 0) = Inr (int nt) \<and> dim_size d (dims var ! 1) = Inr (int nz) \<and>
             shape (vals g) = [nt, nz, nat (ny + snd (get_dim_offset (dims var))),
                             nat (nx + fst (get_dim_offset (dims var)))]"
    if "length (dims var) = 4"
  proof -
    from nd o that obtain nt nz where n: "dim_size d (dims var ! 0) = Inr nt"
      "dim_size d (dims var ! 1) = Inr nz"
      "shape (vals g) = [nat nt, nat nz, nat (ny + y_off), nat (nx + x_off)]"
      by (auto simp: new_data_def bind_eq_Inr zeros_eq_Inr)
    with dim_size_nat [OF n(1)] dim_size_nat [OF n(2)] o show ?thesis
      by (intro exI [of _ "nat nt"] exI [of _ "nat nz"]) simp
  qed
qed

text \<open>The definitions to unfold when a function is run on example data.\<close>

lemmas ex_defs = ex_attrs_def extent_keys_def full_def ex_var_def
lemmas run_defs = get_dims_def int_attr_def set_up_dataset_def set_up_step_def new_data_def
  get_dim_offset_def dim_size_def dim_pairs_def zeros_def DataArray_def Dataset_def
  consistent_dims_def layout_def

lemma d_tmpl_dims: "get_dims d_tmpl ''d'' = Inr [0, 3, 0, 1, 0, 9]"
  by (simp add: d_tmpl_def ex_defs run_defs)

lemma d_tmpl_template:
  "set_up_dataset d_tmpl =
     Inr \<lparr>attrs = attrs d_tmpl,
          variables =
            [(''h'', ex_var [''lat'', ''lon''] (full [2, 4] 0)),
             (''u'', ex_var [''time'', ''level'', ''lat'', ''lon_u''] (full [1, 3, 2, 5] 0)),
             (''v'', ex_var [''level'', ''lat_v'', ''lon''] (full [3, 3, 4] 0))]\<rparr>"
  by (simp add: d_tmpl_def ex_defs run_defs)

text \<open>
  Claim C7, as amended. When the reference tile has a variable with fewer than two or
  more than four dimensions, \<^verbatim>\<open>set_up_dataset\<close> raises and builds no template. The
  exception is not an UnsupportedRankError: the loop has no branch for such a rank, so
  it reads the array of the previous iteration, and raises UnboundLocalError when the
  variable is the first one.
\<close>

theorem unsupported_rank_raises:
  assumes "(v, var) \<in> set (variables d)"
    and "length (dims var) < 2 \<or> 4 < length (dims var)"
  shows "(\<exists>e. set_up_dataset d = Inl e \<and> exc_name e \<noteq> ''UnsupportedRankError'')
       \<and> (\<forall>rest r. variables d = (v, var) # rest \<and> get_dims d ''d'' = Inr r
             \<longrightarrow> set_up_dataset d = Inl UnboundLocalError)"
proof (intro conjI allI impI)
  have "\<not> (\<exists>g. set_up_dataset d = Inr g)"
  proof
    assume "\<exists>g. set_up_dataset d = Inr g"
    then obtain g where "set_up_dataset d = Inr g" ..
    from set_up_dataset_Inr [OF this] obtain nx ny gs where
      "list_all2 (\<lambda>nv v. built d nx ny (snd nv) v) (variables d) gs"
      by blast
    with assms(1) obtain g' where "built d nx ny var g'"
      by (fastforce simp: list_all2_conv_all_nth in_set_conv_nth)
    with assms(2) show False by (auto simp: built_def)
  qed
  then obtain e where e: "set_up_dataset d = Inl e"
    by (cases "set_up_dataset d") auto
  have "exc_name e \<noteq> ''UnsupportedRankError''" by (cases e) simp_all
  with e show "\<exists>e. set_up_dataset d = Inl e \<and> exc_name e \<noteq> ''UnsupportedRankError''"
    by blast
next
  fix rest r
  assume a: "variables d = (v, var) # rest \<and> get_dims d ''d'' = Inr r"
  from a get_dims_unpack6 obtain t where t: "unpack6 r = Inr t" by blast
  from assms(2) have "new_data d nx ny (dims var) None = Inr None" for nx ny
    by (intro new_data_stale) auto
  then have "set_up_step d nx ny (v, var) (None, []) = Inl UnboundLocalError" for nx ny
    by (simp add: set_up_step_def)
  with a t show "set_up_dataset d = Inl UnboundLocalError"
    by (simp add: set_up_dataset_def Let_def split: prod.splits)
qed

text \<open>
  The claim as stated fails: a rank-1 variable raises UnboundLocalError when it comes
  first and ValueError (from the constructor of the variable) after a rank-2 variable.
\<close>

theorem unsupported_rank_counterexample:
  "set_up_dataset d_rank1 = Inl UnboundLocalError
   \<and> exc_name UnboundLocalError \<noteq> ''UnsupportedRankError''
   \<and> set_up_dataset d_rank1_later = Inl ValueError
   \<and> exc_name ValueError \<noteq> ''UnsupportedRankError''"
  by (simp add: d_rank1_def d_rank1_later_def d_tmpl_def ex_defs run_defs)

theorem unsupported_rank_raises_witness:
  "set_up_dataset d_rank1 = Inl UnboundLocalError"
proof -
  have 1: "(''time'', ex_var [''time''] (full [1] 0)) \<in> set (variables d_rank1)"
    by (simp add: d_rank1_def)
  have 2: "length (dims (ex_var [''time''] (full [1] (0::int)))) < 2
         \<or> 4 < length (dims (ex_var [''time''] (full [1] (0::int))))"
    by (simp add: ex_var_def)
  have 3: "variables d_rank1 = (''time'', ex_var [''time''] (full [1] 0)) # []
         \<and> get_dims d_rank1 ''d'' = Inr [0, 3, 0, 1, 0, 9]"
    by (simp add: d_rank1_def d_tmpl_def ex_defs run_defs)
  from unsupported_rank_raises [OF 1 2] 3 show ?thesis by blast
qed

text \<open>
  Claim C4, as amended. In the template, the leading axis of a rank-3 variable and the
  two leading axes of a rank-4 variable have the sizes that the reference tile gives to
  the dimensions of these names (\<^verbatim>\<open>d.dims[dims[0]]\<close>, \<^verbatim>\<open>d.dims[dims[1]]\<close>); the
  vertical extent of the domain does not enter.
\<close>

theorem template_leading_sizes:
  assumes "set_up_dataset d = Inr g" and "(v, var) \<in> set (variables g)"
  shows "(length (dims var) = 3 \<longrightarrow>
            dim_size d (dims var ! 0) = Inr (int (shape (vals var) ! 0)))
       \<and> (length (dims var) = 4 \<longrightarrow>
            dim_size d (dims var ! 0) = Inr (int (shape (vals var) ! 0)) \<and>
            dim_size d (dims var ! 1) = Inr (int (shape (vals var) ! 1)))"
proof -
  from set_up_dataset_Inr [OF assms(1)] obtain ids ide jds jde kds kde where
    "get_dims d ''d'' = Inr [ids, ide, jds, jde, kds, kde]" by blast
  from template_member [OF assms(1) this assms(2)] obtain var0 where
    b: "built d (ide - ids + 1) (jde - jds + 1) var0 var"
    by blast
  then have dm: "dims var = dims var0" by (simp add: built_def)
  show ?thesis
    using built_shape(5) [OF b] built_shape(6) [OF b] by (auto simp: dm)
qed

text \<open>
  The claim as stated fails: on a tile that holds three levels of a domain with
  \<open>kde - kds + 1 = 10\<close>, the vertical axes of the template have size 3.
\<close>

theorem template_leading_sizes_counterexample:
  "map_sum id layout (set_up_dataset d_tmpl) =
     Inr [(''h'', [''lat'', ''lon''], [2, 4]),
          (''u'', [''time'', ''level'', ''lat'', ''lon_u''], [1, 3, 2, 5]),
          (''v'', [''level'', ''lat_v'', ''lon''], [3, 3, 4])]
   \<and> get_dims d_tmpl ''d'' = Inr [0, 3, 0, 1, 0, 9]"
  by (simp add: d_tmpl_def ex_defs run_defs)

theorem template_leading_sizes_witness:
  "dim_size d_tmpl ''level'' = Inr 3 \<and> dim_size d_tmpl ''time'' = Inr 1"
proof -
  have v: "(''v'', ex_var [''level'', ''lat_v'', ''lon''] (full [3, 3, 4] 0))
             \<in> set (variables \<lparr>attrs = attrs d_tmpl,
          variables =
            [(''h'', ex_var [''lat'', ''lon''] (full [2, 4] 0)),
             (''u'', ex_var [''time'', ''level'', ''lat'', ''lon_u''] (full [1, 3, 2, 5] 0)),
             (''v'', ex_var [''level'', ''lat_v'', ''lon''] (full [3, 3, 4] 0))]\<rparr>)"
    by simp
  have u: "(''u'', ex_var [''time'', ''level'', ''lat'', ''lon_u''] (full [1, 3, 2, 5] 0))
             \<in> set (variables \<lparr>attrs = attrs d_tmpl,
          variables =
            [(''h'', ex_var [''lat'', ''lon''] (full [2, 4] 0)),
             (''u'', ex_var [''time'', ''level'', ''lat'', ''lon_u''] (full [1, 3, 2, 5] 0)),
             (''v'', ex_var [''level'', ''lat_v'', ''lon''] (full [3, 3, 4] 0))]\<rparr>)"
    by simp
  from template_leading_sizes [OF d_tmpl_template v] template_leading_sizes [OF d_tmpl_template u]
  show ?thesis by (simp add: ex_var_def full_def)
qed

subsection \<open>Slices and slice assignment\<close>


lemma setitem_shape: "setitem a sls v = Inr a' \<Longrightarrow> shape a' = shape a"
  by (auto simp: setitem_def Let_def split: if_splits)

lemma setitem_cell_outside:
  "setitem a sls v = Inr a' \<Longrightarrow> \<not> in_view (view_bounds (shape a) sls) idx \<Longrightarrow>
   cell a' idx = cell a idx"
  by (auto simp: setitem_def Let_def split: if_splits)



lemma length_view_bounds: "length sls \<le> length shp \<Longrightarrow> length (view_bounds shp sls) = length shp"
  by (simp add: view_bounds_def)







subsection \<open>The rank dispatch of the copy\<close>

lemma copy_variable_Inr:
  assumes "copy_variable loc glob (v, var) ds = Inr ds'"
    and "var_slices (dims var) loc glob = Some (gsl, tsl)"
  shows "\<exists>gv src a'. map_of (variables ds) v = Some gv \<and> getitem (vals var) tsl = Inr src \<and>
           setitem (vals gv) gsl src = Inr a' \<and>
           ds' = ds\<lparr>variables := AList.update v (gv\<lparr>vals := a'\<rparr>) (variables ds)\<rparr>"
  using assms
  by (auto simp: copy_variable_def bind_eq_Inr split: option.splits)

lemma copy_variable_skip:
  "var_slices (dims var) loc glob = None \<Longrightarrow> copy_variable loc glob (v, var) ds = Inr ds"
  by (simp add: copy_variable_def)

lemma map_of_update_same: "map_of (AList.update k v al) k = Some v"
  by (simp add: AList.update_conv')


lemma var_slices_rank2:
  "length ds = 2 \<Longrightarrow>
   var_slices ds ((xts, xte), (yts, yte), (zts, zte)) ((xs, xe), (ys, ye), (zs, ze))
     = Some ([Range ys ye, Range xs xe], [Range yts yte, Range xts xte])"
  by (simp add: var_slices_def split: prod.splits)

lemma not_in_view_beyond:
  assumes "0 \<le> e" and "e \<le> int i"
  shows "\<not> (clip_index n s \<le> i \<and> i < clip_index n s + (clip_index n e - clip_index n s))"
  using assms by (auto simp: clip_index_def)

lemma in_view_rank2:
  "in_view (view_bounds shp [Range ys ye, Range xs xe]) [y, x] \<Longrightarrow>
   \<exists>n1 n2. shp = [n1, n2] \<and>
     clip_index n1 ys \<le> y \<and> y < clip_index n1 ys + (clip_index n1 ye - clip_index n1 ys) \<and>
     clip_index n2 xs \<le> x \<and> x < clip_index n2 xs + (clip_index n2 xe - clip_index n2 xs)"
proof -
  assume a: "in_view (view_bounds shp [Range ys ye, Range xs xe]) [y, x]"
  then have "length (view_bounds shp [Range ys ye, Range xs xe]) = 2"
    by (auto simp: in_view_def dest: list_all2_lengthD)
  then have "length shp = 2"
    by (auto simp: view_bounds_def)
  then obtain n1 n2 where "shp = [n1, n2]"
    by (auto simp: length_Suc_conv numeral_2_eq_2)
  with a show ?thesis
    by (auto simp: in_view_def view_bounds_def)
qed

text \<open>
  Claim C6. For a variable with two dimension names, whatever the names, the copy uses
  the slices \<^verbatim>\<open>ys:ye, xs:xe\<close> of the destination and \<^verbatim>\<open>yts:yte, xts:xte\<close> of
  the source, with no offset added to their ends. So the copy leaves every cell of the
  destination from column \<open>xe\<close> on, and from row \<open>ye\<close> on, as it was, also when
  the names contain a staggering marker.
\<close>

theorem rank2_copy_unwidened:
  assumes "length (dims var) = 2"
  shows "var_slices (dims var) ((xts, xte), (yts, yte), (zts, zte)) ((xs, xe), (ys, ye), (zs, ze))
           = Some ([Range ys ye, Range xs xe], [Range yts yte, Range xts xte])
       \<and> (\<forall>data_set data_set' gv gv' y x.
            copy_variable ((xts, xte), (yts, yte), (zts, zte)) ((xs, xe), (ys, ye), (zs, ze))
              (v, var) data_set = Inr data_set' \<and>
            map_of (variables data_set) v = Some gv \<and>
            map_of (variables data_set') v = Some gv' \<and>
            ((0 \<le> xe \<and> xe \<le> int x) \<or> (0 \<le> ye \<and> ye \<le> int y))
            \<longrightarrow> cell (vals gv') [y, x] = cell (vals gv) [y, x])"
proof (intro conjI allI impI)
  show vs: "var_slices (dims var) ((xts, xte), (yts, yte), (zts, zte)) ((xs, xe), (ys, ye), (zs, ze))
           = Some ([Range ys ye, Range xs xe], [Range yts yte, Range xts xte])"
    using assms by (rule var_slices_rank2)
  fix data_set data_set' :: "'a dataset" and gv gv' y x
  assume a: "copy_variable ((xts, xte), (yts, yte), (zts, zte)) ((xs, xe), (ys, ye), (zs, ze))
              (v, var) data_set = Inr data_set' \<and>
            map_of (variables data_set) v = Some gv \<and>
            map_of (variables data_set') v = Some gv' \<and>
            ((0 \<le> xe \<and> xe \<le> int x) \<or> (0 \<le> ye \<and> ye \<le> int y))"
  from copy_variable_Inr [OF _ vs] a obtain src a' where
    s: "setitem (vals gv) [Range ys ye, Range xs xe] src = Inr a'"
    and d: "data_set' = data_set\<lparr>variables := AList.update v (gv\<lparr>vals := a'\<rparr>) (variables data_set)\<rparr>"
    by fastforce
  from d a have gv': "gv' = gv\<lparr>vals := a'\<rparr>"
    by (simp add: map_of_update_same)
  have "\<not> in_view (view_bounds (shape (vals gv)) [Range ys ye, Range xs xe]) [y, x]"
  proof
    assume "in_view (view_bounds (shape (vals gv)) [Range ys ye, Range xs xe]) [y, x]"
    from in_view_rank2 [OF this] obtain n1 n2 where
      "clip_index n1 ys \<le> y \<and> y < clip_index n1 ys + (clip_index n1 ye - clip_index n1 ys)"
      "clip_index n2 xs \<le> x \<and> x < clip_index n2 xs + (clip_index n2 xe - clip_index n2 xs)"
      by blast
    with a not_in_view_beyond [of xe x n2 xs] not_in_view_beyond [of ye y n1 ys]
    show False by blast
  qed
  from setitem_cell_outside [OF s this] gv'
  show "cell (vals gv') [y, x] = cell (vals gv) [y, x]" by simp
qed


text \<open>The definitions to unfold when the copy is run on example data.\<close>

lemmas copy_defs = copy_variable_def var_slices_def getitem_def setitem_def view_bounds_def
  clip_index_def broadcastable_def value_index_def in_view_def bind_def Let_def

theorem rank2_copy_unwidened_witness:
  "\<exists>data_set' gv'.
     copy_variable ((0, 2), (0, 1), (0, 1)) ((0, 2), (0, 1), (0, 1))
       (''u2'', ex_var [''lat'', ''lon_u''] (full [1, 3] (7::int)))
       \<lparr>attrs = attrs d_stag2,
        variables = [(''u2'', ex_var [''lat'', ''lon_u''] (full [1, 3] 0))]\<rparr> = Inr data_set'
     \<and> map_of (variables data_set') ''u2'' = Some gv'
     \<and> cell (vals gv') [0, 2] = 0"
proof -
  let ?var = "ex_var [''lat'', ''lon_u''] (full [1, 3] (7::int))"
  let ?gv = "ex_var [''lat'', ''lon_u''] (full [1, 3] (0::int))"
  let ?ds = "\<lparr>attrs = attrs d_stag2, variables = [(''u2'', ?gv)]\<rparr>"
  have len: "length (dims ?var) = 2" by (simp add: ex_var_def)
  have "\<exists>ds'. copy_variable ((0, 2), (0, 1), (0, 1)) ((0, 2), (0, 1), (0, 1)) (''u2'', ?var) ?ds
           = Inr ds'"
    by (simp add: copy_defs get_dim_offset_def ex_var_def full_def)
  then obtain ds' where c: "copy_variable ((0, 2), (0, 1), (0, 1)) ((0, 2), (0, 1), (0, 1))
      (''u2'', ?var) ?ds = Inr ds'" ..
  from copy_variable_Inr [OF c var_slices_rank2 [OF len]] obtain gv' where
    g: "map_of (variables ds') ''u2'' = Some gv'"
    by (auto simp: map_of_update_same)
  have "map_of (variables ?ds) ''u2'' = Some ?gv" by simp
  with rank2_copy_unwidened [OF len, of 0 2 0 1 0 1 0 2 0 1 0 1 "''u2''"] c g
  have "cell (vals gv') [0, 2] = cell (vals ?gv) [0, 2]"
    by (metis of_nat_numeral order_refl zero_le_numeral)
  then have "cell (vals gv') [0, 2] = 0" by (simp add: ex_var_def full_def)
  with c g show ?thesis by blast
qed

lemma var_slices_rank3:
  "length ds = 3 \<Longrightarrow>
   var_slices ds ((xts, xte), (yts, yte), (zts, zte)) ((xs, xe), (ys, ye), (zs, ze))
     = Some (if ds ! 0 = ''time''
             then ([Whole, Range ys (ye + snd (get_dim_offset ds)), Range xs (xe + fst (get_dim_offset ds))],
                   [Whole, Range yts (yte + snd (get_dim_offset ds)), Range xts (xte + fst (get_dim_offset ds))])
             else ([Range zs ze, Range ys (ye + snd (get_dim_offset ds)), Range xs (xe + fst (get_dim_offset ds))],
                   [Range zts zte, Range yts (yte + snd (get_dim_offset ds)), Range xts (xte + fst (get_dim_offset ds))]))"
  by (simp add: var_slices_def split: prod.splits)


text \<open>
  Claim C9. A variable with three dimension names is copied with its leading axis whole
  when the first name is \<^verbatim>\<open>time\<close>, and with the z slices on its leading axis for
  every other first name; the slices in y and x are the same in both cases. The template
  gives the leading axis the size that the reference tile has for the first name, with
  no distinction between the two cases.
\<close>

theorem rank3_dispatch:
  fixes var :: "('a::zero) variable"
  assumes "length (dims var) = 3"
  shows "var_slices (dims var) ((xts, xte), (yts, yte), (zts, zte)) ((xs, xe), (ys, ye), (zs, ze))
     = Some (if dims var ! 0 = ''time''
             then ([Whole, Range ys (ye + snd (get_dim_offset (dims var))),
                           Range xs (xe + fst (get_dim_offset (dims var)))],
                   [Whole, Range yts (yte + snd (get_dim_offset (dims var))),
                           Range xts (xte + fst (get_dim_offset (dims var)))])
             else ([Range zs ze, Range ys (ye + snd (get_dim_offset (dims var))),
                                 Range xs (xe + fst (get_dim_offset (dims var)))],
                   [Range zts zte, Range yts (yte + snd (get_dim_offset (dims var))),
                                   Range xts (xte + fst (get_dim_offset (dims var)))]))
   \<and> (\<forall>(d :: 'a dataset) g gv.
         set_up_dataset d = Inr g \<and> (v, gv) \<in> set (variables g) \<and> dims gv = dims var
         \<longrightarrow> dim_size d (dims var ! 0) = Inr (int (shape (vals gv) ! 0)))"
proof (intro conjI allI impI)
  show "var_slices (dims var) ((xts, xte), (yts, yte), (zts, zte)) ((xs, xe), (ys, ye), (zs, ze))
     = Some (if dims var ! 0 = ''time''
             then ([Whole, Range ys (ye + snd (get_dim_offset (dims var))),
                           Range xs (xe + fst (get_dim_offset (dims var)))],
                   [Whole, Range yts (yte + snd (get_dim_offset (dims var))),
                           Range xts (xte + fst (get_dim_offset (dims var)))])
             else ([Range zs ze, Range ys (ye + snd (get_dim_offset (dims var))),
                                 Range xs (xe + fst (get_dim_offset (dims var)))],
                   [Range zts zte, Range yts (yte + snd (get_dim_offset (dims var))),
                                   Range xts (xte + fst (get_dim_offset (dims var)))]))"
    using assms by (rule var_slices_rank3)
next
  fix d g :: "'a dataset" and gv
  assume a: "set_up_dataset d = Inr g \<and> (v, gv) \<in> set (variables g) \<and> dims gv = dims var"
  from set_up_dataset_Inr [of d g] a obtain ids ide jds jde kds kde where
    "get_dims d ''d'' = Inr [ids, ide, jds, jde, kds, kde]" by blast
  from template_member [OF _ this, of g v gv] a obtain var0 where
    b: "built d (ide - ids + 1) (jde - jds + 1) var0 gv"
    by blast
  then have "dims gv = dims var0" by (simp add: built_def)
  with a assms built_shape(5) [OF b]
  show "dim_size d (dims var ! 0) = Inr (int (shape (vals gv) ! 0))"
    by auto
qed

theorem rank3_dispatch_witness:
  "var_slices [''time'', ''lat'', ''lon''] ((1, 3), (1, 2), (0, 3)) ((2, 4), (0, 1), (0, 3))
     = Some ([Whole, Range 0 1, Range 2 4], [Whole, Range 1 2, Range 1 3])
   \<and> var_slices [''level'', ''lat_v'', ''lon''] ((1, 3), (1, 2), (0, 3)) ((2, 4), (0, 1), (0, 3))
     = Some ([Range 0 3, Range 0 2, Range 2 4], [Range 0 3, Range 1 3, Range 1 3])
   \<and> dim_size d_tmpl ''level'' = Inr 3"
proof -
  have 1: "length (dims (ex_var [''time'', ''lat'', ''lon''] (full [1, 2, 4] (0::int)))) = 3"
    by (simp add: ex_var_def)
  have 2: "length (dims (ex_var [''level'', ''lat_v'', ''lon''] (full [3, 3, 4] (0::int)))) = 3"
    by (simp add: ex_var_def)
  have 3: "(''v'', ex_var [''level'', ''lat_v'', ''lon''] (full [3, 3, 4] 0))
             \<in> set (variables \<lparr>attrs = attrs d_tmpl,
          variables =
            [(''h'', ex_var [''lat'', ''lon''] (full [2, 4] 0)),
             (''u'', ex_var [''time'', ''level'', ''lat'', ''lon_u''] (full [1, 3, 2, 5] 0)),
             (''v'', ex_var [''level'', ''lat_v'', ''lon''] (full [3, 3, 4] 0))]\<rparr>)"
    by simp
  from rank3_dispatch [OF 1, of 1 3 1 2 0 3 2 4 0 1 0 3 "''h''"]
  have a: "var_slices [''time'', ''lat'', ''lon''] ((1, 3), (1, 2), (0, 3)) ((2, 4), (0, 1), (0, 3))
     = Some ([Whole, Range 0 1, Range 2 4], [Whole, Range 1 2, Range 1 3])"
    by (simp add: ex_var_def get_dim_offset_def)
  note r = rank3_dispatch [OF 2, of 1 3 1 2 0 3 2 4 0 1 0 3 "''v''"]
  from r have b: "var_slices [''level'', ''lat_v'', ''lon''] ((1, 3), (1, 2), (0, 3)) ((2, 4), (0, 1), (0, 3))
     = Some ([Range 0 3, Range 0 2, Range 2 4], [Range 0 3, Range 1 3, Range 1 3])"
    by (simp add: ex_var_def get_dim_offset_def)
  from r [THEN conjunct2, rule_format, of d_tmpl _
            "ex_var [''level'', ''lat_v'', ''lon''] (full [3, 3, 4] 0)"] d_tmpl_template 3
  have c: "dim_size d_tmpl ''level'' = Inr 3"
    by (simp add: ex_var_def full_def)
  from a b c show ?thesis by simp
qed

subsection \<open>The shapes of the aggregated dataset\<close>

text \<open>The copy changes the cells only: names, dimension names and shapes stay.\<close>

lemma layout_update:
  "map_of al v = Some gv \<Longrightarrow> dims x = dims gv \<Longrightarrow> shape (vals x) = shape (vals gv) \<Longrightarrow>
   map (\<lambda>(n, v). (n, dims v, shape (vals v))) (AList.update v x al)
     = map (\<lambda>(n, v). (n, dims v, shape (vals v))) al"
  by (induction al) (auto split: if_splits)

lemma copy_variable_layout:
  assumes "copy_variable loc glob nv ds = Inr ds'"
  shows "layout ds' = layout ds"
proof -
  obtain v var where nv: "nv = (v, var)" by (cases nv)
  show ?thesis
  proof (cases "var_slices (dims var) loc glob")
    case None
    with assms nv show ?thesis by (simp add: copy_variable_def)
  next
    case (Some sl)
    obtain gsl tsl where sl: "sl = (gsl, tsl)" by (cases sl)
    from copy_variable_Inr [OF assms [unfolded nv] Some [unfolded sl]] obtain gv src a' where
      g: "map_of (variables ds) v = Some gv" "setitem (vals gv) gsl src = Inr a'"
        "ds' = ds\<lparr>variables := AList.update v (gv\<lparr>vals := a'\<rparr>) (variables ds)\<rparr>"
      by blast
    from setitem_shape [OF g(2)] g(1,3) show ?thesis
      by (simp add: layout_def layout_update)
  qed
qed

lemma fold_err_preserves:
  assumes "\<And>x s s'. f x s = Inr s' \<Longrightarrow> P s \<Longrightarrow> P s'"
    and "P s" and "fold_err f xs s = Inr s'"
  shows "P s'"
  using assms(2,3)
proof (induction xs arbitrary: s)
  case Nil
  then show ?case by simp
next
  case (Cons x xs)
  then show ?case
    by (cases "f x s") (auto intro: assms(1))
qed

lemma agg_tile_layout:
  assumes "agg_tile dext d ds = Inr ds'"
  shows "layout ds' = layout ds"
proof -
  have keep: "layout s' = layout ds"
    if "fold_err (copy_variable loc glob) (variables d) ds = Inr s'" for loc glob s'
    using fold_err_preserves [where P = "\<lambda>s. layout s = layout ds", OF _ _ that]
    by (simp add: copy_variable_layout)
  from assms show ?thesis
    by (cases dext) (auto simp: agg_tile_def bind_eq_Inr Let_def dest: keep)
qed

lemma aggregate_layout:
  assumes "aggregate (d # rest) = Inr g"
  shows "\<exists>tmpl. set_up_dataset d = Inr tmpl \<and> layout g = layout tmpl"
proof -
  from assms obtain tmpl dext where t: "set_up_dataset d = Inr tmpl"
    and f: "fold_err (agg_tile dext) (d # rest) tmpl = Inr g"
    by (auto simp: aggregate_def bind_eq_Inr simp del: fold_err.simps)
  from fold_err_preserves [where P = "\<lambda>s. layout s = layout tmpl", OF _ _ f]
  have "layout g = layout tmpl" by (simp add: agg_tile_layout)
  with t show ?thesis by blast
qed

lemma template_sizes:
  assumes "set_up_dataset d = Inr g"
    and "get_dims d ''d'' = Inr [ids, ide, jds, jde, kds, kde]"
    and "(v, var) \<in> set (variables g)"
  shows "2 \<le> length (shape (vals var)) \<and> length (shape (vals var)) = length (dims var)
       \<and> int (last (shape (vals var)))
           = (ide - ids + 1) + (if ''lon_u'' \<in> set (dims var) then 1 else 0)
       \<and> int (last (butlast (shape (vals var))))
           = (jde - jds + 1) + (if ''lat_v'' \<in> set (dims var) then 1 else 0)
       \<and> fst (get_dim_offset (dims var)) = (if ''lon_u'' \<in> set (dims var) then 1 else 0)
       \<and> snd (get_dim_offset (dims var)) = (if ''lat_v'' \<in> set (dims var) then 1 else 0)
       \<and> get_dim_offset (''lat_v'' # ''lon_u'' # ds) = (1, 1)"
proof -
  from template_member [OF assms] obtain var0 where
    b: "built d (ide - ids + 1) (jde - jds + 1) var0 var"
    by blast
  then have dm: "dims var = dims var0"
    and r: "length (dims var0) = 2 \<or> length (dims var0) = 3 \<or> length (dims var0) = 4"
    by (simp_all add: built_def)
  have off: "fst (get_dim_offset (dims var0)) = (if ''lon_u'' \<in> set (dims var0) then 1 else 0)"
    "snd (get_dim_offset (dims var0)) = (if ''lat_v'' \<in> set (dims var0) then 1 else 0)"
    by (simp_all add: get_dim_offset_def)
  note sh = built_shape [OF b]
  from r have "2 \<le> length (shape (vals var)) \<and> length (shape (vals var)) = length (dims var0)
       \<and> int (last (shape (vals var)))
           = (ide - ids + 1) + fst (get_dim_offset (dims var0))
       \<and> int (last (butlast (shape (vals var))))
           = (jde - jds + 1) + snd (get_dim_offset (dims var0))"
  proof (elim disjE)
    assume "length (dims var0) = 2"
    with sh(1,2) sh(4) show ?thesis by simp
  next
    assume l: "length (dims var0) = 3"
    from sh(5) [OF l] sh(1,2) l show ?thesis by auto
  next
    assume l: "length (dims var0) = 4"
    from sh(6) [OF l] sh(1,2) l show ?thesis by auto
  qed
  with off dm show ?thesis
    by (simp add: get_dim_offset_def)
qed


text \<open>
  Claim C3. In the template built from a tile, and in the dataset aggregated from a group
  whose first tile it is, every variable has at least two axes; its last axis has the
  size \<open>ide - ids + 1\<close> of the domain in x, plus one exactly when its dimension names
  contain \<^verbatim>\<open>lon_u\<close>, and its last but one axis has the size \<open>jde - jds + 1\<close> of the
  domain in y, plus one exactly when they contain \<^verbatim>\<open>lat_v\<close>. Each offset is 0 or 1,
  and both are 1 for a tuple with both markers.
\<close>

theorem template_trailing_sizes:
  assumes "get_dims d ''d'' = Inr [ids, ide, jds, jde, kds, kde]"
    and "set_up_dataset d = Inr g \<or> aggregate (d # rest) = Inr g"
    and "(v, var) \<in> set (variables g)"
  shows "2 \<le> length (shape (vals var)) \<and> length (shape (vals var)) = length (dims var)
       \<and> int (last (shape (vals var)))
           = (ide - ids + 1) + (if ''lon_u'' \<in> set (dims var) then 1 else 0)
       \<and> int (last (butlast (shape (vals var))))
           = (jde - jds + 1) + (if ''lat_v'' \<in> set (dims var) then 1 else 0)
       \<and> fst (get_dim_offset (dims var)) = (if ''lon_u'' \<in> set (dims var) then 1 else 0)
       \<and> snd (get_dim_offset (dims var)) = (if ''lat_v'' \<in> set (dims var) then 1 else 0)
       \<and> get_dim_offset (''lat_v'' # ''lon_u'' # ds) = (1, 1)"
  using assms(2)
proof
  assume "set_up_dataset d = Inr g"
  from template_sizes [OF this assms(1,3)] show ?thesis .
next
  assume "aggregate (d # rest) = Inr g"
  from aggregate_layout [OF this] obtain tmpl where
    t: "set_up_dataset d = Inr tmpl" "layout g = layout tmpl"
    by blast
  from assms(3) have "(v, dims var, shape (vals var)) \<in> set (layout g)"
    by (force simp: layout_def)
  with t(2) obtain var' where
    v': "(v, var') \<in> set (variables tmpl)" "dims var' = dims var"
      "shape (vals var') = shape (vals var)"
    by (auto simp: layout_def)
  from template_sizes [OF t(1) assms(1) v'(1), of ds] v'(2,3) show ?thesis
    by simp
qed

theorem template_trailing_sizes_witness:
  "int (last (shape (vals (ex_var [''time'', ''level'', ''lat'', ''lon_u'']
                             (full [1, 3, 2, 5] (0::int))))))
     = (3 - 0 + 1) + 1
   \<and> int (last (butlast (shape (vals (ex_var [''time'', ''level'', ''lat'', ''lon_u'']
                             (full [1, 3, 2, 5] (0::int)))))))
     = (1 - 0 + 1) + 0"
proof -
  have "set_up_dataset d_tmpl
          = Inr \<lparr>attrs = attrs d_tmpl,
                 variables =
                   [(''h'', ex_var [''lat'', ''lon''] (full [2, 4] 0)),
                    (''u'', ex_var [''time'', ''level'', ''lat'', ''lon_u''] (full [1, 3, 2, 5] 0)),
                    (''v'', ex_var [''level'', ''lat_v'', ''lon''] (full [3, 3, 4] 0))]\<rparr>
        \<or> aggregate (d_tmpl # [])
          = Inr \<lparr>attrs = attrs d_tmpl,
                 variables =
                   [(''h'', ex_var [''lat'', ''lon''] (full [2, 4] 0)),
                    (''u'', ex_var [''time'', ''level'', ''lat'', ''lon_u''] (full [1, 3, 2, 5] 0)),
                    (''v'', ex_var [''level'', ''lat_v'', ''lon''] (full [3, 3, 4] 0))]\<rparr>"
    using d_tmpl_template by simp
  from template_trailing_sizes [OF d_tmpl_dims this,
      of "''u''" "ex_var [''time'', ''level'', ''lat'', ''lon_u''] (full [1, 3, 2, 5] 0)"]
  show ?thesis by (simp add: ex_var_def)
qed


subsection \<open>One timestep group\<close>

text \<open>The example group, run.\<close>

lemma replace_star: "replace ''out_001_t.nc'' ''_001_'' ''*'' = ''out*t.nc''"
  by simp


lemma sort_ex: "sort [''out_002_t.nc'', ''out_001_t.nc''] = [''out_001_t.nc'', ''out_002_t.nc'']"
  by (simp add: less_eq_char_def)

lemmas agg_defs = agg_file_def aggregate_def agg_tile_def local_slice_def global_slice_def
  read_cells_def ramp_def

lemma agg_first_only:
  "map_sum id (\<lambda>(n, g). (n, read_cells g ''h'' [[0, 0], [0, 1], [0, 2], [0, 3]]))
     (agg_file glob_first_only load_ex ''out_001_t.nc'')
   = Inr (''out_t.nc'', Some [10, 11, 0, 0])"
  by (simp add: glob_first_only_def load_ex_def tile_a_def agg_defs ex_defs run_defs copy_defs)

lemma agg_ex:
  "map_sum id (\<lambda>(n, g). (n, read_cells g ''h'' [[0, 0], [0, 1], [0, 2], [0, 3]],
                             read_cells g ''u'' [[0, 0, 0], [0, 0, 1], [0, 0, 2], [0, 0, 3], [0, 0, 4]]))
     (agg_file glob_ex load_ex ''out_001_t.nc'')
   = Inr (''out_t.nc'', Some [10, 11, 21, 22], Some [30, 31, 41, 42, 43])"
  by (simp add: glob_ex_def load_ex_def tile_a_def tile_b_def agg_defs ex_defs run_defs copy_defs sort_ex)

lemma map_err_cong_set: "\<forall>x \<in> set xs. f x = g x \<Longrightarrow> map_err f xs = map_err g xs"
  by (induction xs) (simp_all cong: sum.case_cong)

lemma fold_err_rel:
  "list_all2 (\<lambda>x y. f x = g y) xs ys \<Longrightarrow> fold_err f xs s = fold_err g ys s"
proof (induction xs ys arbitrary: s rule: list_all2_induct)
  case Nil
  then show ?case by simp
next
  case (Cons x xs y ys)
  then show ?case by (cases "g y s") auto
qed

lemma map_err_rel:
  assumes "\<And>f. f \<in> set fs \<Longrightarrow> load' f = load f \<or> (\<exists>d d'. load f = Inr d \<and> load' f = Inr d' \<and> S d d')"
    and "\<And>d. S d d"
  shows "(\<exists>e. map_err load fs = Inl e \<and> map_err load' fs = Inl e) \<or>
         (\<exists>ds ds'. map_err load fs = Inr ds \<and> map_err load' fs = Inr ds' \<and> list_all2 S ds ds')"
  using assms(1)
proof (induction fs)
  case Nil
  then show ?case by simp
next
  case (Cons f fs)
  from Cons.prems have hd: "load' f = load f \<or> (\<exists>d d'. load f = Inr d \<and> load' f = Inr d' \<and> S d d')"
    by simp
  from Cons have tl: "(\<exists>e. map_err load fs = Inl e \<and> map_err load' fs = Inl e) \<or>
         (\<exists>ds ds'. map_err load fs = Inr ds \<and> map_err load' fs = Inr ds' \<and> list_all2 S ds ds')"
    by simp
  show ?case
  proof (cases "load f")
    case (Inl e)
    with hd show ?thesis by auto
  next
    case (Inr d)
    with hd obtain d' where d': "load' f = Inr d'" "S d d'"
      using assms(2) by auto
    from tl show ?thesis
    proof
      assume "\<exists>e. map_err load fs = Inl e \<and> map_err load' fs = Inl e"
      with Inr d' show ?thesis by auto
    next
      assume "\<exists>ds ds'. map_err load fs = Inr ds \<and> map_err load' fs = Inr ds' \<and> list_all2 S ds ds'"
      with Inr d' show ?thesis by auto
    qed
  qed
qed

lemma same_but_domain_refl: "same_but_domain d d"
  by (simp add: same_but_domain_def)

lemma get_dims_same_but_domain:
  assumes "same_but_domain d d'" and "s = ''m'' \<or> s = ''t''"
  shows "get_dims d' s = get_dims d s"
  unfolding get_dims_def
proof (rule map_err_cong_set, rule ballI)
  fix k assume "k \<in> set (extent_keys s)"
  with assms(2) have "k \<notin> set (extent_keys ''d'')"
    by (auto simp: extent_keys_def)
  with assms(1) show "int_attr d' k = int_attr d k"
    by (simp add: same_but_domain_def int_attr_def)
qed

lemma agg_tile_same_but_domain:
  assumes "same_but_domain d d'"
  shows "agg_tile dext d' = agg_tile dext d"
proof
  fix ds
  from assms have "variables d' = variables d" by (simp add: same_but_domain_def)
  then show "agg_tile dext d' ds = agg_tile dext d ds"
    by (simp add: agg_tile_def get_dims_same_but_domain [OF assms])
qed

lemma aggregate_same_but_domain:
  assumes "list_all2 same_but_domain ds ds'"
  shows "aggregate (d0 # ds') = aggregate (d0 # ds)"
proof -
  from assms have "list_all2 (\<lambda>x y. agg_tile dext x = agg_tile dext y) ds' ds" for dext :: "int \<times> int \<times> int \<times> int \<times> int \<times> int"
    by (auto simp: list_all2_conv_all_nth agg_tile_same_but_domain)
  then have "fold_err (agg_tile dext) ds' s = fold_err (agg_tile dext) ds s" for dext s
    by (rule fold_err_rel)
  then have "fold_err (agg_tile dext) ds' = fold_err (agg_tile dext) ds" for dext
    by (intro ext)
  then show ?thesis
    by (simp add: aggregate_def cong: sum.case_cong)
qed

text \<open>
  Claim C10. The attributes of the domain extent are read from the first dataset of the
  sorted file list only. When the other files of a group are replaced by files that
  differ from them in nothing but these six attributes, \<^verbatim>\<open>agg_file\<close> produces the
  same result: the same exception, or the same output file with the same content. So
  domain extents that disagree within a group are not detected.
\<close>

theorem domain_extent_of_first_only:
  assumes "sort (glob (replace first_file ''_001_'' ''*'')) = f0 # fs"
    and "load' f0 = load f0"
    and "\<forall>f \<in> set fs. load' f = load f \<or>
           (\<exists>d d'. load f = Inr d \<and> load' f = Inr d' \<and> same_but_domain d d')"
  shows "agg_file glob load' first_file = agg_file glob load first_file"
proof -
  from map_err_rel [of fs load' load same_but_domain] assms(3) same_but_domain_refl
  consider e where "map_err load fs = Inl e" "map_err load' fs = Inl e"
    | ds ds' where "map_err load fs = Inr ds" "map_err load' fs = Inr ds'"
        "list_all2 same_but_domain ds ds'"
    by blast
  then show ?thesis
  proof cases
    case 1
    with assms(1,2) show ?thesis
      by (cases "load f0") (simp_all add: agg_file_def)
  next
    case 2
    from aggregate_same_but_domain [OF 2(3)] 2(1,2) assms(1,2) show ?thesis
      by (cases "load f0") (simp_all add: agg_file_def)
  qed
qed

text \<open>
  Claim C5, as amended. When one of the files that the search finds cannot be loaded,
  \<^verbatim>\<open>agg_file\<close> raises the exception of a failed load, which is not a
  TileGroupIncompleteError, and writes no file.
\<close>

theorem unreadable_tile_aborts:
  assumes "f \<in> set (glob (replace first_file ''_001_'' ''*''))" and "load f = Inl e"
  shows "\<exists>e'. agg_file glob load first_file = Inl e'
            \<and> (\<exists>f' \<in> set (glob (replace first_file ''_001_'' ''*'')). load f' = Inl e')
            \<and> exc_name e' \<noteq> ''TileGroupIncompleteError''"
proof -
  let ?fs = "sort (glob (replace first_file ''_001_'' ''*''))"
  from assms(2) have "isl (load f)" by simp
  with assms(1) have "isl (map_err load ?fs)"
    by (auto simp: map_err_isl)
  then obtain e' where e': "map_err load ?fs = Inl e'"
    by (cases "map_err load ?fs") auto
  from map_err_Inl [OF this] obtain f' where
    "f' \<in> set (glob (replace first_file ''_001_'' ''*''))" "load f' = Inl e'"
    by auto
  moreover have "exc_name e' \<noteq> ''TileGroupIncompleteError''"
    by (cases e') simp_all
  moreover from e' have "agg_file glob load first_file = Inl e'"
    by (simp add: agg_file_def)
  ultimately show ?thesis by blast
qed

text \<open>
  The claim as stated fails. When the file of the second tile is missing from the
  directory, the search does not find it and \<^verbatim>\<open>agg_file\<close> raises nothing: it writes
  the output file, with the zero fill in the columns of the missing tile. When that file
  is there and cannot be opened, the exception is the one of the reader.
\<close>

theorem unreadable_tile_counterexample:
  "map_sum id (\<lambda>(n, g). (n, read_cells g ''h'' [[0, 0], [0, 1], [0, 2], [0, 3]]))
     (agg_file glob_first_only load_ex ''out_001_t.nc'')
   = Inr (''out_t.nc'', Some [10, 11, 0, 0])
   \<and> agg_file glob_ex load_broken ''out_001_t.nc'' = Inl OSError
   \<and> exc_name OSError \<noteq> ''TileGroupIncompleteError''"
proof (intro conjI)
  show "map_sum id (\<lambda>(n, g). (n, read_cells g ''h'' [[0, 0], [0, 1], [0, 2], [0, 3]]))
     (agg_file glob_first_only load_ex ''out_001_t.nc'')
   = Inr (''out_t.nc'', Some [10, 11, 0, 0])"
    by (rule agg_first_only)
  show "agg_file glob_ex load_broken ''out_001_t.nc'' = Inl OSError"
    by (simp add: agg_file_def glob_ex_def load_broken_def sort_ex)
  show "exc_name OSError \<noteq> ''TileGroupIncompleteError''"
    by simp
qed

theorem unreadable_tile_aborts_witness:
  "agg_file glob_ex load_broken ''out_001_t.nc'' = Inl OSError"
proof -
  have 1: "''out_002_t.nc'' \<in> set (glob_ex (replace ''out_001_t.nc'' ''_001_'' ''*''))"
    by (simp add: glob_ex_def)
  have 2: "load_broken ''out_002_t.nc'' = Inl OSError"
    by (simp add: load_broken_def)
  from unreadable_tile_aborts [where glob = glob_ex and load = load_broken
      and first_file = "''out_001_t.nc''", OF 1 2] obtain e' f' where
    e: "agg_file glob_ex load_broken ''out_001_t.nc'' = Inl e'" "load_broken f' = Inl e'"
    by blast
  from e(2) have "e' = OSError"
    by (simp add: load_broken_def split: if_splits)
  with e(1) show ?thesis by simp
qed

theorem domain_extent_of_first_only_witness:
  "map_sum id (\<lambda>(n, g). (n, read_cells g ''h'' [[0, 0], [0, 1], [0, 2], [0, 3]],
                             read_cells g ''u'' [[0, 0, 0], [0, 0, 1], [0, 0, 2], [0, 0, 3], [0, 0, 4]]))
     (agg_file glob_ex load_other ''out_001_t.nc'')
   = Inr (''out_t.nc'', Some [10, 11, 21, 22], Some [30, 31, 41, 42, 43])
   \<and> get_dims tile_b_other ''d'' = Inr [5, 9, 7, 8, 1, 1]"
proof -
  have 1: "sort (glob_ex (replace ''out_001_t.nc'' ''_001_'' ''*'')) = ''out_001_t.nc'' # [''out_002_t.nc'']"
    by (simp add: glob_ex_def sort_ex)
  have 2: "load_other ''out_001_t.nc'' = load_ex ''out_001_t.nc''"
    by (simp add: load_other_def load_ex_def)
  have "same_but_domain tile_b tile_b_other"
    by (auto simp: same_but_domain_def tile_b_other_def tile_b_def ex_attrs_def extent_keys_def)
  then have 3: "\<forall>f \<in> set [''out_002_t.nc'']. load_other f = load_ex f \<or>
           (\<exists>d d'. load_ex f = Inr d \<and> load_other f = Inr d' \<and> same_but_domain d d')"
    by (simp add: load_other_def load_ex_def)
  have 4: "get_dims tile_b_other ''d'' = Inr [5, 9, 7, 8, 1, 1]"
    by (simp add: tile_b_other_def ex_defs run_defs)
  from domain_extent_of_first_only [where glob = glob_ex and load = load_ex
      and load' = load_other and first_file = "''out_001_t.nc''", OF 1 2 3] agg_ex 4
  show ?thesis
    by simp
qed


subsection \<open>The aggregation of a partition\<close>


















































end
